theory Spec2Isabelle
  imports Complex_Main "HOL-Library.Word"
begin

section \<open>JavaScript values used by the cart page and the navbar\<close>

text \<open>
  A JavaScript string is a sequence of UTF-16 code units. The euro sign is the single
  code unit U+20AC, so \<open>replace("\<euro>", "")\<close> and the regular expression
  \<open>/[^0-9.]/g\<close> (no \<open>u\<close> flag) both work on code units.
\<close>

type_synonym jschar = "16 word"
type_synonym jsstring = "jschar list"

definition ascii :: "string \<Rightarrow> jsstring" where
  "ascii s = map of_char s"

definition euro :: jschar where "euro = 0x20AC"
definition comma :: jschar where "comma = 0x2C"
definition dot :: jschar where "dot = 0x2E"
definition plusSign :: jschar where "plusSign = 0x2B"
definition minusSign :: jschar where "minusSign = 0x2D"

text \<open>
  A JavaScript number is an IEEE 754 double: NaN, one of the two infinities, or a finite
  value, kept here as the rational it stands for. The sign of zero is not modelled (the
  code never divides by a number nor compares with \<open>Object.is\<close>).
\<close>

datatype jsnum = NaN | PInf | NInf | Fin rat

text \<open>
  Rounding a rational to the nearest double, ties to the even significand. A double has
  53 significant bits; its exponent is at least -1022 (below, the values are spaced
  \<open>2^-1074\<close> apart down to 0) and a result of \<open>2^1024\<close> or more is an infinity.
\<close>

fun bitLength :: "nat \<Rightarrow> nat" where
  "bitLength n = (if n = 0 then 0 else Suc (bitLength (n div 2)))"

declare bitLength.simps [simp del]

definition pow2 :: "int \<Rightarrow> rat" where
  "pow2 e = (if 0 \<le> e then 2 ^ nat e else 1 / 2 ^ nat (- e))"

text \<open>For \<open>a > 0\<close>, the exponent \<open>e\<close> with \<open>2^e \<le> a < 2^(e+1)\<close>.\<close>

definition floorLog2 :: "rat \<Rightarrow> int" where
  "floorLog2 a =
     (if 1 \<le> a then int (bitLength (nat \<lfloor>a\<rfloor>)) - 1
      else - int (bitLength (nat (\<lceil>1 / a\<rceil> - 1))))"

definition roundHalfEven :: "rat \<Rightarrow> int" where
  "roundHalfEven x =
     (let f = \<lfloor>x\<rfloor>; d = x - of_int f
      in if d < 1 / 2 then f
         else if 1 / 2 < d then f + 1
         else if even f then f else f + 1)"

definition toDouble :: "rat \<Rightarrow> jsnum" where
  "toDouble x =
     (if x = 0 then Fin 0
      else
        let a = \<bar>x\<bar>;
            e = max (floorLog2 a) (- 1022);
            ulp = pow2 (e - 52);
            r = of_int (roundHalfEven (a / ulp)) * ulp
        in if pow2 1024 \<le> r then (if 0 < x then PInf else NInf)
           else Fin (if 0 < x then r else - r))"

text \<open>
  \<open>+\<close> and \<open>*\<close> on numbers: the exact result of two finite doubles, rounded once; the
  rules of IEEE 754 for NaN and the infinities.
\<close>

fun jsadd :: "jsnum \<Rightarrow> jsnum \<Rightarrow> jsnum" where
  "jsadd NaN _ = NaN"
| "jsadd _ NaN = NaN"
| "jsadd PInf NInf = NaN"
| "jsadd NInf PInf = NaN"
| "jsadd PInf _ = PInf"
| "jsadd _ PInf = PInf"
| "jsadd NInf _ = NInf"
| "jsadd _ NInf = NInf"
| "jsadd (Fin a) (Fin b) = toDouble (a + b)"

definition infTimes :: "bool \<Rightarrow> rat \<Rightarrow> jsnum" where
  "infTimes positive a =
     (if a = 0 then NaN else if (0 < a) = positive then PInf else NInf)"

fun jsmul :: "jsnum \<Rightarrow> jsnum \<Rightarrow> jsnum" where
  "jsmul NaN _ = NaN"
| "jsmul _ NaN = NaN"
| "jsmul PInf PInf = PInf"
| "jsmul PInf NInf = NInf"
| "jsmul NInf PInf = NInf"
| "jsmul NInf NInf = PInf"
| "jsmul PInf (Fin a) = infTimes True a"
| "jsmul NInf (Fin a) = infTimes False a"
| "jsmul (Fin a) PInf = infTimes True a"
| "jsmul (Fin a) NInf = infTimes False a"
| "jsmul (Fin a) (Fin b) = toDouble (a * b)"

instantiation jsnum :: "{zero, plus, times}"
begin

definition zero_jsnum :: jsnum where "zero_jsnum = Fin 0"
definition plus_jsnum :: "jsnum \<Rightarrow> jsnum \<Rightarrow> jsnum" where "plus_jsnum = jsadd"
definition times_jsnum :: "jsnum \<Rightarrow> jsnum \<Rightarrow> jsnum" where "times_jsnum = jsmul"

instance ..

end


text \<open>\<open>isNaN(x)\<close>, and \<open>x || 0\<close> on a number: 0 and NaN are the falsy numbers.\<close>

definition isNaN :: "jsnum \<Rightarrow> bool" where
  "isNaN x \<longleftrightarrow> x = NaN"

definition orZero :: "jsnum \<Rightarrow> jsnum" where
  "orZero x = (if x = NaN \<or> x = Fin 0 then Fin 0 else x)"

text \<open>The number an integer is read as, as \<open>quantity: number\<close> holds it.\<close>

definition ofInt :: "int \<Rightarrow> jsnum" where
  "ofInt n = toDouble (of_int n)"


subsection \<open>parseFloat\<close>

text \<open>
  \<open>parseFloat\<close> (ECMAScript 19.2.4) drops leading white space and line terminators, then
  reads the longest prefix that is a StrDecimalLiteral: an optional sign, then either
  \<open>Infinity\<close> or decimal digits with an optional fraction and an optional exponent; at
  least one digit must stand before or after the dot. With no such prefix the result is
  NaN. Whatever follows the prefix is ignored. The number is the double nearest to the
  decimal value of the prefix.
\<close>

definition isWhiteSpace :: "jschar \<Rightarrow> bool" where
  "isWhiteSpace c \<longleftrightarrow>
     c \<in> set [0x09, 0x0A, 0x0B, 0x0C, 0x0D, 0x20, 0xA0, 0x1680, 0x2028, 0x2029,
              0x202F, 0x205F, 0x3000, 0xFEFF]
     \<or> (0x2000 \<le> c \<and> c \<le> 0x200A)"

definition isDigit :: "jschar \<Rightarrow> bool" where
  "isDigit c \<longleftrightarrow> 0x30 \<le> c \<and> c \<le> 0x39"

definition digitVal :: "jschar \<Rightarrow> nat" where
  "digitVal c = unat (c - 0x30)"

definition digitsValue :: "jsstring \<Rightarrow> nat" where
  "digitsValue ds = foldl (\<lambda>n c. 10 * n + digitVal c) 0 ds"

definition splitSign :: "jsstring \<Rightarrow> bool \<times> jsstring" where
  "splitSign s =
     (case s of
        [] \<Rightarrow> (False, [])
      | c # r \<Rightarrow>
          if c = minusSign then (True, r)
          else if c = plusSign then (False, r)
          else (False, s))"

definition exponentPart :: "jsstring \<Rightarrow> int" where
  "exponentPart s =
     (case s of
        [] \<Rightarrow> 0
      | c # r \<Rightarrow>
          if c = 0x65 \<or> c = 0x45 then
            (case splitSign r of
               (neg, t) \<Rightarrow>
                 let ds = takeWhile isDigit t in
                 if ds = [] then 0
                 else if neg then - int (digitsValue ds)
                 else int (digitsValue ds))
          else 0)"

definition scale10 :: "rat \<Rightarrow> int \<Rightarrow> rat" where
  "scale10 m e = (if 0 \<le> e then m * 10 ^ nat e else m / 10 ^ nat (- e))"

definition decimalLiteral :: "bool \<Rightarrow> jsstring \<Rightarrow> jsnum" where
  "decimalLiteral neg u =
     (let ip = takeWhile isDigit u;
          r1 = dropWhile isDigit u;
          afterDot = (case r1 of [] \<Rightarrow> None | c # r \<Rightarrow> if c = dot then Some r else None);
          fp = (case afterDot of None \<Rightarrow> [] | Some r \<Rightarrow> takeWhile isDigit r);
          r2 = (case afterDot of None \<Rightarrow> r1 | Some r \<Rightarrow> dropWhile isDigit r)
      in if ip = [] \<and> fp = [] then NaN
         else
           let m = of_nat (digitsValue (ip @ fp)) / 10 ^ length fp;
               v = scale10 m (exponentPart r2)
           in toDouble (if neg then - v else v))"

definition parseFloat :: "jsstring \<Rightarrow> jsnum" where
  "parseFloat s =
     (case splitSign (dropWhile isWhiteSpace s) of
        (neg, u) \<Rightarrow>
          if take 8 u = ascii ''Infinity'' then (if neg then NInf else PInf)
          else decimalLiteral neg u)"

text \<open>
  \<open>s.replace(c, r)\<close> with a one-character string pattern replaces the first occurrence
  only; \<open>s.replace(/[^0-9.]/g, "")\<close> removes every code unit that is neither a digit
  nor a dot.
\<close>

fun replaceFirst :: "jschar \<Rightarrow> jsstring \<Rightarrow> jsstring \<Rightarrow> jsstring" where
  "replaceFirst c r [] = []"
| "replaceFirst c r (x # xs) = (if x = c then r @ xs else x # replaceFirst c r xs)"

definition stripNonNumeric :: "jsstring \<Rightarrow> jsstring" where
  "stripNonNumeric s = filter (\<lambda>c. isDigit c \<or> c = dot) s"




section \<open>The cart page: data\<close>

text \<open>
  \<open>interface CartItem\<close>: \<open>price?: string\<close> may be absent, \<open>quantity: number\<close> is taken to
  be an integer, so \<open>Number(item.quantity)\<close> is the quantity itself.
\<close>

record product =
  product_id :: int
  cart_id :: jsstring
  price :: "jsstring option"
  quantity :: int

text \<open>An element of \<open>cartItems\<close>: the product with its price replaced by a number.\<close>

record cartItem =
  item_product_id :: int
  item_cart_id :: jsstring
  item_price :: jsnum
  item_quantity :: int

record totalEntry =
  title :: jsstring
  entry_text :: jsstring

text \<open>
  An entry of \<open>cartData.cart.menu.contents\<close>. \<open>count\<close> is the required number of items,
  \<open>currentCount\<close> the backend's own tally (read by the first version of the page only),
  \<open>ids\<close> the category ids whose products count for the entry (read by the second,
  and taken to be present there).
\<close>

record content =
  name :: jsstring
  count :: "int option"
  currentCount :: "int option"
  ids :: "int list"

text \<open>
  \<open>cartData\<close> as \<open>useGetCartQuery\<close> returns it. A field that is missing (or \<open>cartData\<close>
  itself while undefined) is None: every access in the source goes through \<open>?.\<close>.
\<close>

record cartData =
  products :: "product list option"
  totals :: "totalEntry list option"
  contents :: "content list option"

section \<open>Totals (both versions of the cart page)\<close>

text \<open>\<open>product.price || "0"\<close>: an absent or empty price is read as \<open>"0"\<close>.\<close>

definition priceText :: "jsstring option \<Rightarrow> jsstring" where
  "priceText p = (case p of None \<Rightarrow> ascii ''0'' | Some s \<Rightarrow> if s = [] then ascii ''0'' else s)"

definition cartItems :: "cartData \<Rightarrow> cartItem list" where
  "cartItems d =
     (case products d of
        None \<Rightarrow> []
      | Some ps \<Rightarrow>
          map (\<lambda>p. \<lparr> item_product_id = product_id p, item_cart_id = cart_id p,
                     item_price = parseFloat (priceText (price p)),
                     item_quantity = quantity p \<rparr>) ps)"

definition subTotal :: "cartData \<Rightarrow> jsnum" where
  "subTotal d =
     foldl (\<lambda>sum item. sum + orZero (item_price item) * ofInt (item_quantity item))
       0 (cartItems d)"

definition totalItem :: "cartData \<Rightarrow> totalEntry option" where
  "totalItem d =
     (case totals d of
        None \<Rightarrow> None
      | Some ts \<Rightarrow> find (\<lambda>item. title item = ascii ''Total'') ts)"

definition totalPrice :: "cartData \<Rightarrow> jsnum" where
  "totalPrice d =
     (case totalItem d of
        Some t \<Rightarrow> parseFloat (stripNonNumeric (entry_text t))
      | None \<Rightarrow> subTotal d)"

text \<open>
  The pair the \<open>useMemo\<close> returns, before \<open>toFixed(2)\<close> formats each number for display.
  \<open>cartItems\<close> is always an array, so the branch for a non-array is never taken.
\<close>

definition computeTotals :: "cartData \<Rightarrow> jsnum \<times> jsnum" where
  "computeTotals d = (subTotal d, totalPrice d)"

section \<open>The navbar's total\<close>

text \<open>
  \<open>getTotalPrice\<close>: the price text loses its first euro sign, its first comma becomes a
  dot, and parseFloat reads the result; \<open>parseFloat(undefined)\<close> is NaN. An item whose
  price or quantity is NaN adds 0.
\<close>

definition navPrice :: "jsstring option \<Rightarrow> jsnum" where
  "navPrice p =
     (case p of
        None \<Rightarrow> NaN
      | Some s \<Rightarrow> parseFloat (replaceFirst comma [dot] (replaceFirst euro [] s)))"

definition getTotalPrice :: "product list option \<Rightarrow> jsnum" where
  "getTotalPrice stateProducts =
     (case stateProducts of
        None \<Rightarrow> 0
      | Some items \<Rightarrow>
          foldl (\<lambda>total item.
                   let p = navPrice (price item);
                       q = ofInt (quantity item)
                   in total + (if isNaN p \<or> isNaN q then 0 else p * q))
            0 items)"


section \<open>Checkout validation\<close>

text \<open>
  What \<open>handleCheckout\<close> ends with: \<open>router.push("/checkout")\<close>; the toast that names a
  content with its required and current count (and no navigation); or, in the second
  version only, the generic toast of the \<open>catch\<close> block (and no navigation).
\<close>

datatype outcome = Proceed | Unsatisfied jsstring int int | Failed

text \<open>\<open>content.count || 0\<close> and \<open>content.currentCount || 0\<close>.\<close>

definition intOrZero :: "int option \<Rightarrow> int" where
  "intOrZero v = (case v of None \<Rightarrow> 0 | Some n \<Rightarrow> n)"

definition menuContents :: "cartData \<Rightarrow> content list" where
  "menuContents d = (case contents d of None \<Rightarrow> [] | Some cs \<Rightarrow> cs)"

subsection \<open>First version: the backend's own tally\<close>

fun checkContents1 :: "content list \<Rightarrow> outcome" where
  "checkContents1 [] = Proceed"
| "checkContents1 (c # cs) =
     (let requiredCount = intOrZero (count c);
          current = intOrZero (currentCount c)
      in if current < requiredCount then Unsatisfied (name c) requiredCount current
         else checkContents1 cs)"

definition handleCheckout1 :: "cartData \<Rightarrow> outcome" where
  "handleCheckout1 d = checkContents1 (menuContents d)"

subsection \<open>Second version: membership looked up per category\<close>

text \<open>
  One \<open>fetch(...).then(res => res.json())\<close>: the promise rejects (no response, or a body
  that is not JSON), or it yields a body whose \<open>products\<close> field is a list of products
  (each known here by its \<open>product_id\<close>, taken to be present) or is missing.
  \<open>Promise.all\<close> rejects as soon as one of its promises does, and the \<open>await\<close> then
  throws into the \<open>catch\<close> block. A response with an error status whose body is JSON
  does not reject: it is a body, with or without \<open>products\<close>.
\<close>

datatype response = Rejected | Body "int list option"

definition awaitAll :: "response list \<Rightarrow> int list option list option" where
  "awaitAll rs =
     (if Rejected \<in> set rs then None
      else Some (map (\<lambda>r. case r of Body b \<Rightarrow> b | Rejected \<Rightarrow> None) rs))"

definition categoryProducts :: "int list option list \<Rightarrow> int list" where
  "categoryProducts results =
     foldl (\<lambda>acc result. case result of Some ps \<Rightarrow> acc @ ps | None \<Rightarrow> acc) [] results"

text \<open>
  \<open>cartData?.products?.reduce(...) || 0\<close>. Product ids are compared through
  \<open>toString()\<close>, which is one-to-one on integers.
\<close>

definition currentCount2 :: "int list \<Rightarrow> product list option \<Rightarrow> int" where
  "currentCount2 cps ps =
     (case ps of
        None \<Rightarrow> 0
      | Some xs \<Rightarrow>
          foldl (\<lambda>sum product.
                   let isInCategory = list_ex (\<lambda>p. p = product_id product) cps
                   in if isInCategory then sum + quantity product else sum)
            0 xs)"

text \<open>One turn of the \<open>for\<close> loop: go on, stop with the toast for this content, or throw.\<close>

datatype verdict = Pass | Fail int int | Abort

definition checkContent :: "(int \<Rightarrow> response) \<Rightarrow> product list option \<Rightarrow> content \<Rightarrow> verdict" where
  "checkContent lookup ps c =
     (case awaitAll (map lookup (ids c)) of
        None \<Rightarrow> Abort
      | Some results \<Rightarrow>
          let requiredCount = intOrZero (count c);
              current = currentCount2 (categoryProducts results) ps
          in if current < requiredCount then Fail requiredCount current else Pass)"

text \<open>
  The loop, with the list of category ids it has sent to \<open>/api/get-products-by-category\<close>,
  in order.
\<close>

fun checkContents2 ::
  "(int \<Rightarrow> response) \<Rightarrow> product list option \<Rightarrow> content list \<Rightarrow> outcome \<times> int list" where
  "checkContents2 lookup ps [] = (Proceed, [])"
| "checkContents2 lookup ps (c # cs) =
     (case checkContent lookup ps c of
        Abort \<Rightarrow> (Failed, ids c)
      | Fail requiredCount current \<Rightarrow> (Unsatisfied (name c) requiredCount current, ids c)
      | Pass \<Rightarrow>
          (case checkContents2 lookup ps cs of (out, sent) \<Rightarrow> (out, ids c @ sent)))"

definition handleCheckout2 :: "(int \<Rightarrow> response) \<Rightarrow> cartData \<Rightarrow> outcome \<times> int list" where
  "handleCheckout2 lookup d = checkContents2 lookup (products d) (menuContents d)"

text \<open>
  For stating properties: the cart's products as a list (a missing \<open>products\<close> field
  behaves as the empty list), and the \<open>results\<close> array a content's lookups resolve to
  when none of them rejects.
\<close>

definition productsOrEmpty :: "product list option \<Rightarrow> product list" where
  "productsOrEmpty ps = (case ps of None \<Rightarrow> [] | Some xs \<Rightarrow> xs)"

definition bodies :: "(int \<Rightarrow> response) \<Rightarrow> content \<Rightarrow> int list option list" where
  "bodies lookup c = map (\<lambda>i. case lookup i of Body b \<Rightarrow> b | Rejected \<Rightarrow> None) (ids c)"


subsection \<open>The checkout button of the second version\<close>

text \<open>
  \<open>isCheckingOut\<close> is the React state the button's \<open>disabled\<close> attribute shows. A run of
  \<open>handleCheckout\<close> that has started and not yet returned is kept in \<open>running\<close> with the
  products it closed over and the contents its loop has still to visit; it is suspended
  at an \<open>await\<close> between two steps. A click reaches \<open>handleCheckout\<close> only while the
  rendered button is enabled, and a state update is rendered before the next event.
\<close>

record page =
  isCheckingOut :: bool
  running :: "(product list option \<times> content list) list"
  navigated :: bool

definition initialPage :: page where
  "initialPage = \<lparr> isCheckingOut = False, running = [], navigated = False \<rparr>"

definition without :: "nat \<Rightarrow> 'a list \<Rightarrow> 'a list" where
  "without i xs = take i xs @ drop (Suc i) xs"

text \<open>
  What can happen to the page: a click on the button while the cart data is \<open>d\<close>, or the
  \<open>i\<close>-th suspended run going on with the answers \<open>lookup\<close> to its pending requests.
  \<open>step\<close> is None when the event cannot happen: the button is disabled, or there is no
  such run.
\<close>

datatype action = Click cartData | Resume nat "int \<Rightarrow> response"

definition click :: "cartData \<Rightarrow> page \<Rightarrow> page option" where
  "click d s =
     (if isCheckingOut s then None
      else Some (s\<lparr> isCheckingOut := True,
                     running := running s @ [(products d, menuContents d)] \<rparr>))"

definition resume :: "nat \<Rightarrow> (int \<Rightarrow> response) \<Rightarrow> page \<Rightarrow> page option" where
  "resume i lookup s =
     (if i < length (running s) then
        (case running s ! i of
           (ps, []) \<Rightarrow> Some (s\<lparr> running := without i (running s), navigated := True \<rparr>)
         | (ps, c # cs) \<Rightarrow>
             (case checkContent lookup ps c of
                Pass \<Rightarrow> Some (s\<lparr> running := (running s)[i := (ps, cs)] \<rparr>)
              | Fail requiredCount current \<Rightarrow>
                  Some (s\<lparr> isCheckingOut := False, running := without i (running s) \<rparr>)
              | Abort \<Rightarrow>
                  Some (s\<lparr> isCheckingOut := False, running := without i (running s) \<rparr>)))
      else None)"

fun step :: "page \<Rightarrow> action \<Rightarrow> page option" where
  "step s (Click d) = click d s"
| "step s (Resume i lookup) = resume i lookup s"

fun run :: "page \<Rightarrow> action list \<Rightarrow> page option" where
  "run s [] = Some s"
| "run s (a # as) = (case step s a of None \<Rightarrow> None | Some s' \<Rightarrow> run s' as)"

text \<open>At most one run in flight, and the button disabled while there is one.\<close>

definition oneRun :: "page \<Rightarrow> bool" where
  "oneRun s \<longleftrightarrow> length (running s) \<le> 1 \<and> (running s \<noteq> [] \<longrightarrow> isCheckingOut s)"

section \<open>Changing a quantity (second version)\<close>

text \<open>
  What a handler does, in order: the request it sends through \<open>editProduct\<close> or
  \<open>removeProduct\<close>, the refetch, and the toast (its wording is not modelled).
  \<open>unwrap()\<close> either yields the response with its \<open>success\<close> flag or throws.
\<close>

datatype mutationResult = Resolved bool | Thrown

datatype effect =
  EditProduct jsstring int | RemoveProduct jsstring int | Refetch | ToastSuccess | ToastError

definition afterMutation :: "mutationResult \<Rightarrow> effect list" where
  "afterMutation r =
     (case r of
        Thrown \<Rightarrow> [ToastError]
      | Resolved success \<Rightarrow> [Refetch, if success then ToastSuccess else ToastError])"

definition handleRemove :: "cartItem \<Rightarrow> mutationResult \<Rightarrow> effect list" where
  "handleRemove item r = RemoveProduct (item_cart_id item) 0 # afterMutation r"

definition handleIncrement :: "cartItem \<Rightarrow> mutationResult \<Rightarrow> effect list" where
  "handleIncrement item r =
     (let newQuantity = item_quantity item + 1
      in EditProduct (item_cart_id item) newQuantity # afterMutation r)"

definition handleDecrement :: "cartItem \<Rightarrow> mutationResult \<Rightarrow> effect list" where
  "handleDecrement item r =
     (if item_quantity item > 1 then
        (let newQuantity = item_quantity item - 1
         in EditProduct (item_cart_id item) newQuantity # afterMutation r)
      else handleRemove item r)"

text \<open>
  The requests of a handler's run: cart entry and quantity of each one sent to the
  edit-quantity interface, and the cart entry of each removal.
\<close>

fun edits :: "effect list \<Rightarrow> (jsstring \<times> int) list" where
  "edits [] = []"
| "edits (EditProduct i q # es) = (i, q) # edits es"
| "edits (e # es) = edits es"

fun removals :: "effect list \<Rightarrow> jsstring list" where
  "removals [] = []"
| "removals (RemoveProduct i q # es) = i # removals es"
| "removals (e # es) = removals es"

section \<open>The price parsing the specification describes\<close>



section \<open>Sample data\<close>

definition sampleItem :: "int \<Rightarrow> cartItem" where
  "sampleItem q =
     \<lparr> item_product_id = 7, item_cart_id = ascii ''c1'', item_price = Fin 5,
       item_quantity = q \<rparr>"

definition sampleLookup :: "int \<Rightarrow> response" where
  "sampleLookup i =
     (if i = 10 then Body (Some [1, 2])
      else if i = 20 then Body (Some [3])
      else if i = 30 then Body None
      else Rejected)"

definition sampleContent :: "string \<Rightarrow> int \<Rightarrow> int list \<Rightarrow> content" where
  "sampleContent n required categories =
     \<lparr> name = ascii n, count = Some required, currentCount = Some 1, ids = categories \<rparr>"

definition untalliedContent :: "string \<Rightarrow> int \<Rightarrow> int list \<Rightarrow> content" where
  "untalliedContent n required categories =
     \<lparr> name = ascii n, count = Some required, currentCount = None, ids = categories \<rparr>"

definition sampleProduct :: "int \<Rightarrow> string \<Rightarrow> int \<Rightarrow> product" where
  "sampleProduct i p q =
     \<lparr> product_id = i, cart_id = ascii ''c1'', price = Some (ascii p), quantity = q \<rparr>"

definition sampleCart :: "product list \<Rightarrow> content list \<Rightarrow> cartData" where
  "sampleCart ps cs = \<lparr> products = Some ps, totals = None, contents = Some cs \<rparr>"

definition clickedPage :: page where
  "clickedPage =
     \<lparr> isCheckingOut = True,
       running = [(Some [sampleProduct 1 ''5'' 2], [sampleContent ''Salat'' 2 [10]])],
       navigated = False \<rparr>"

definition sampleTotals :: "product list \<Rightarrow> (string \<times> jsstring) list \<Rightarrow> cartData" where
  "sampleTotals ps ts =
     \<lparr> products = Some ps,
       totals = Some (map (\<lambda>(t, x). \<lparr> title = ascii t, entry_text = x \<rparr>) ts),
       contents = None \<rparr>"

definition pricedProduct :: "jsstring \<Rightarrow> int \<Rightarrow> product" where
  "pricedProduct p q = \<lparr> product_id = 1, cart_id = ascii ''c1'', price = Some p, quantity = q \<rparr>"

definition pricedCart :: "product list \<Rightarrow> cartData" where
  "pricedCart ps = \<lparr> products = Some ps, totals = None, contents = None \<rparr>"

section \<open>Numbers: rounding\<close>

text \<open>
  \<open>floorLog2\<close> is the binary exponent, and \<open>toDouble\<close> gives a value within half a unit in
  the last place of its argument.
\<close>

lemma bitLength_bounds: "0 < n \<Longrightarrow> 2 ^ (bitLength n - 1) \<le> n \<and> n < 2 ^ bitLength n"
proof (induction n rule: bitLength.induct)
  case (1 n)
  show ?case
  proof (cases "n div 2 = 0")
    case True
    with "1.prems" have "n = 1" by (simp add: div_eq_0_iff) 
    then show ?thesis
      by (simp add: bitLength.simps [of "Suc 0"] bitLength.simps [of 0])
  next
    case False
    then have m: "0 < n div 2" by simp
    from "1.prems" have n0: "n \<noteq> 0" by simp
    from "1.IH" [OF n0 m] have lo: "2 ^ (bitLength (n div 2) - 1) \<le> n div 2"
      and hi: "n div 2 < 2 ^ bitLength (n div 2)" by simp_all
    have pos: "0 < bitLength (n div 2)"
      using m by (simp add: bitLength.simps [of "n div 2"])
    have bn: "bitLength n = Suc (bitLength (n div 2))"
      using n0 by (simp add: bitLength.simps [of n])
    have "2 ^ bitLength (n div 2) = 2 * 2 ^ (bitLength (n div 2) - 1)"
      using pos by (cases "bitLength (n div 2)") simp_all
    also have "\<dots> \<le> 2 * (n div 2)" using lo by simp
    also have "\<dots> \<le> n" by simp
    finally have a: "2 ^ (bitLength n - 1) \<le> n" by (simp add: bn)
    have "n < 2 * (n div 2 + 1)" by presburger
    also have "\<dots> \<le> 2 * 2 ^ bitLength (n div 2)" using hi by simp
    finally have b: "n < 2 ^ bitLength n" by (simp add: bn)
    from a b show ?thesis by simp
  qed
qed

lemma floorLog2_bounds:
  assumes "0 < a"
  shows "pow2 (floorLog2 a) \<le> a \<and> a < pow2 (floorLog2 a + 1)"
proof (cases "1 \<le> a")
  case True
  define f where "f = nat \<lfloor>a\<rfloor>"
  have f1: "0 < f" using True by (simp add: f_def)
  have fa: "of_nat f \<le> a" "a < of_nat f + 1"
    using True floor_correct [of a] by (simp_all add: f_def)
  from bitLength_bounds [OF f1] have lo: "2 ^ (bitLength f - 1) \<le> f" and hi: "f < 2 ^ bitLength f"
    by simp_all
  have pos: "0 < bitLength f" using f1 by (simp add: bitLength.simps [of f])
  have e: "floorLog2 a = int (bitLength f) - 1"
    using True by (simp add: floorLog2_def f_def)
  have p1: "pow2 (floorLog2 a) = 2 ^ (bitLength f - 1)"
    using pos by (simp add: e pow2_def nat_diff_distrib')
  have p2: "pow2 (floorLog2 a + 1) = 2 ^ bitLength f"
    by (simp add: e pow2_def)
  from lo have "(of_nat (2 ^ (bitLength f - 1)) :: rat) \<le> of_nat f"
    by (simp only: of_nat_le_iff)
  then have "(2::rat) ^ (bitLength f - 1) \<le> of_nat f"
    by simp
  with fa(1) have "(2::rat) ^ (bitLength f - 1) \<le> a"
    by linarith
  then have a1: "pow2 (floorLog2 a) \<le> a" by (simp only: p1)
  have "f + 1 \<le> 2 ^ bitLength f" using hi by simp
  then have "(of_nat (f + 1) :: rat) \<le> of_nat (2 ^ bitLength f)"
    by (simp only: of_nat_le_iff)
  then have "(of_nat f + 1 :: rat) \<le> 2 ^ bitLength f"
    by simp
  with fa(2) have "a < 2 ^ bitLength f"
    by linarith
  then have a2: "a < pow2 (floorLog2 a + 1)" by (simp only: p2)
  from a1 a2 show ?thesis by simp
next
  case False
  then have a1: "a < 1" by simp
  define m where "m = \<lceil>1 / a\<rceil>"
  define g where "g = nat (m - 1)"
  have b1: "1 < 1 / a" using assms a1 by simp
  have m2: "2 \<le> m" using b1 by (simp add: m_def)
  have g1: "0 < g" using m2 by (simp add: g_def)
  have mb: "1 / a \<le> of_int m" "of_int m - 1 < 1 / a"
    using ceiling_correct [of "1 / a"] by (simp_all add: m_def)
  from bitLength_bounds [OF g1] have lo: "2 ^ (bitLength g - 1) \<le> g" and hi: "g < 2 ^ bitLength g"
    by simp_all
  have pos: "0 < bitLength g" using g1 by (simp add: bitLength.simps [of g])
  have e: "floorLog2 a = - int (bitLength g)"
    using False by (simp add: floorLog2_def g_def m_def)
  have gm: "int g = m - 1" using m2 by (simp add: g_def)
  have p1: "pow2 (floorLog2 a) = 1 / 2 ^ bitLength g"
    using pos by (simp add: e pow2_def)
  have p2: "pow2 (floorLog2 a + 1) = 1 / 2 ^ (bitLength g - 1)"
    using pos by (cases "bitLength g") (simp_all add: e pow2_def nat_diff_distrib')
  from hi have "int g < int (2 ^ bitLength g)"
    by (simp only: of_nat_less_iff)
  then have "m \<le> 2 ^ bitLength g"
    by (simp add: gm)
  then have "(of_int m :: rat) \<le> of_int (2 ^ bitLength g)"
    by (simp only: of_int_le_iff)
  then have "(of_int m :: rat) \<le> 2 ^ bitLength g"
    by simp
  with mb(1) have "1 / a \<le> 2 ^ bitLength g"
    by linarith
  then have "1 / 2 ^ bitLength g \<le> a"
    using assms by (simp add: field_simps)
  then have x1: "pow2 (floorLog2 a) \<le> a"
    by (simp only: p1)
  from lo have "int (2 ^ (bitLength g - 1)) \<le> int g"
    by (simp only: of_nat_le_iff)
  then have "(2::int) ^ (bitLength g - 1) \<le> m - 1"
    by (simp add: gm)
  then have "(of_int (2 ^ (bitLength g - 1)) :: rat) \<le> of_int (m - 1)"
    by (simp only: of_int_le_iff)
  then have "(2::rat) ^ (bitLength g - 1) \<le> of_int m - 1"
    by simp
  then have "2 ^ (bitLength g - 1) < 1 / a"
    using mb(2) by linarith
  then have "a < 1 / 2 ^ (bitLength g - 1)"
    using assms by (simp add: field_simps)
  then have x2: "a < pow2 (floorLog2 a + 1)"
    by (simp only: p2)
  from x1 x2 show ?thesis by simp
qed


lemma pow2_pos: "0 < pow2 e"
  by (simp add: pow2_def)

lemma roundHalfEven_near: "\<bar>of_int (roundHalfEven y) - y\<bar> \<le> 1 / 2"
proof -
  define d where "d = y - of_int \<lfloor>y\<rfloor>"
  have d: "0 \<le> d" "d < 1"
    using floor_correct [of y] by (simp_all add: d_def)
  have y: "y = of_int \<lfloor>y\<rfloor> + d"
    by (simp add: d_def)
  have r: "roundHalfEven y = (if d < 1 / 2 then \<lfloor>y\<rfloor> else if 1 / 2 < d then \<lfloor>y\<rfloor> + 1
      else if even \<lfloor>y\<rfloor> then \<lfloor>y\<rfloor> else \<lfloor>y\<rfloor> + 1)"
    by (simp add: roundHalfEven_def Let_def d_def)
  have "\<bar>of_int (roundHalfEven y) - (of_int \<lfloor>y\<rfloor> + d)\<bar> \<le> 1 / 2"
    using d by (simp add: r abs_if)
  then show ?thesis
    using y by simp
qed

lemma toDouble_near:
  assumes "toDouble x = Fin v"
  shows "\<bar>v - x\<bar> \<le> pow2 (max (floorLog2 \<bar>x\<bar>) (- 1022) - 52) / 2"
proof (cases "x = 0")
  case True
  with assms have "v = 0" by (simp add: toDouble_def)
  with True show ?thesis
    using pow2_pos [of "max (floorLog2 \<bar>x\<bar>) (- 1022) - 52"] by simp
next
  case False
  define u where "u = pow2 (max (floorLog2 \<bar>x\<bar>) (- 1022) - 52)"
  define n where "n = roundHalfEven (\<bar>x\<bar> / u)"
  have u: "0 < u" by (simp add: u_def pow2_pos)
  from assms False have v: "v = (if 0 < x then of_int n * u else - (of_int n * u))"
    by (simp add: toDouble_def Let_def u_def n_def split: if_splits)
  have "\<bar>of_int n - \<bar>x\<bar> / u\<bar> \<le> 1 / 2"
    unfolding n_def by (rule roundHalfEven_near)
  then have "\<bar>of_int n - \<bar>x\<bar> / u\<bar> * u \<le> 1 / 2 * u"
    using u by (simp only: mult_le_cancel_right_pos)
  moreover have "\<bar>of_int n - \<bar>x\<bar> / u\<bar> * u = \<bar>of_int n - \<bar>x\<bar> / u\<bar> * \<bar>u\<bar>"
    using u by simp
  moreover have "\<bar>of_int n - \<bar>x\<bar> / u\<bar> * \<bar>u\<bar> = \<bar>(of_int n - \<bar>x\<bar> / u) * u\<bar>"
    by (simp only: abs_mult)
  moreover have "(of_int n - \<bar>x\<bar> / u) * u = of_int n * u - \<bar>x\<bar>"
    using u by (simp add: left_diff_distrib)
  ultimately have "\<bar>of_int n * u - \<bar>x\<bar>\<bar> \<le> u / 2"
    by simp
  then have "\<bar>v - x\<bar> \<le> u / 2"
    using False by (auto simp: v abs_if split: if_splits)
  then show ?thesis
    by (simp only: u_def)
qed

section \<open>Numbers: evaluation\<close>

lemma bitLength_numeral:
  "bitLength (numeral n) = Suc (bitLength (numeral n div 2))"
  "bitLength 0 = 0" "bitLength 1 = 1" "bitLength (Suc 0) = 1"
  by (simp_all add: bitLength.simps [of "numeral n"] bitLength.simps [of 0]
      bitLength.simps [of 1] bitLength.simps [of "Suc 0"])

lemma floor_rat_numeral:
  "\<lfloor>(numeral a :: rat) / numeral b\<rfloor> = numeral a div numeral b"
  "\<lfloor>(1 :: rat) / numeral b\<rfloor> = 1 div numeral b"
  using floor_divide_of_int_eq [of "numeral a" "numeral b", where ?'a = rat]
    floor_divide_of_int_eq [of 1 "numeral b", where ?'a = rat]
  by simp_all

lemma ceiling_rat_numeral:
  "\<lceil>(numeral a :: rat) / numeral b\<rceil> = - (- numeral a div numeral b)"
  "\<lceil>(1 :: rat) / numeral b\<rceil> = - (- 1 div numeral b)"
  using ceiling_divide_eq_div [of "numeral a" "numeral b", where ?'a = rat]
    ceiling_divide_eq_div [of 1 "numeral b", where ?'a = rat]
  by simp_all

lemmas double_defs = toDouble_def roundHalfEven_def floorLog2_def pow2_def Let_def
  bitLength_numeral floor_rat_numeral ceiling_rat_numeral

lemmas parse_defs = parseFloat_def decimalLiteral_def splitSign_def exponentPart_def scale10_def
  digitsValue_def digitVal_def isDigit_def isWhiteSpace_def ascii_def
  euro_def comma_def dot_def plusSign_def minusSign_def

lemmas totals_defs = computeTotals_def subTotal_def totalPrice_def totalItem_def cartItems_def
  priceText_def orZero_def ofInt_def stripNonNumeric_def
  zero_jsnum_def plus_jsnum_def times_jsnum_def

text \<open>
  \<open>0.1\<close> and \<open>0.3\<close> are not doubles, \<open>0.1 * 3\<close> is \<open>0.30000000000000004\<close>, and
  \<open>2^53 + 1\<close> is rounded to \<open>2^53\<close>.
\<close>

lemma double_rounding_examples:
  "toDouble (1 / 10) = Fin (3602879701896397 / 36028797018963968)"
  "toDouble (1 / 10) * ofInt 3 = Fin (1351079888211149 / 4503599627370496)"
  "toDouble (3 / 10) = Fin (5404319552844595 / 18014398509481984)"
  "toDouble (2 ^ 53 + 1) = Fin (2 ^ 53)"
  by (simp_all add: double_defs ofInt_def times_jsnum_def)




section \<open>Totals: properties\<close>

lemma foldl_plus_map:
  "foldl (\<lambda>sum x. sum + f x) a xs = foldl (+) a (map f xs)" for a :: jsnum
  by (simp add: foldl_map)





lemma subTotal_totals: "subTotal (d\<lparr> totals := x \<rparr>) = subTotal d"
  by (simp add: subTotal_def cartItems_def)

lemma find_filter_same: "find P (filter P xs) = find P xs"
  by (induction xs) simp_all

lemma find_first:
  "P t \<Longrightarrow> \<forall>e\<in>set pre. \<not> P e \<Longrightarrow> find P (pre @ t # post) = Some t"
  by (induction pre) simp_all

lemma find_none: "\<forall>e\<in>set ts. \<not> P e \<Longrightarrow> find P ts = None"
  by (induction ts) simp_all





























text \<open>
  The cart page does not read a price as the navbar does: for the same cart the page
  drops what follows a comma and counts a price that begins with the euro sign as 0.
\<close>

lemma cart_page_differs_from_navbar:
  "subTotal (pricedCart [pricedProduct (ascii ''12,50 '' @ [euro]) 1]) = Fin 12
   \<and> getTotalPrice (Some [pricedProduct (ascii ''12,50 '' @ [euro]) 1]) = Fin (25 / 2)
   \<and> subTotal (pricedCart [pricedProduct (euro # ascii ''5'') 1]) = Fin 0
   \<and> getTotalPrice (Some [pricedProduct (euro # ascii ''5'') 1]) = Fin 5"
  by (simp add: pricedCart_def pricedProduct_def totals_defs parse_defs
      getTotalPrice_def navPrice_def isNaN_def double_defs)

text \<open>
  Claim C2 at a \<open>Total\<close> text that is no number: with one product priced 5 and the text
  \<open>n/a\<close>, the entry is found, its text parses to NaN, and the total is NaN while the
  subtotal is 5.
\<close>

theorem C2_unparseable_total:
  "totalItem (sampleTotals [pricedProduct (ascii ''5'') 1] [(''Total'', ascii ''n/a'')])
     = Some \<lparr> title = ascii ''Total'', entry_text = ascii ''n/a'' \<rparr>
   \<and> parseFloat (stripNonNumeric (ascii ''n/a'')) = NaN
   \<and> computeTotals (sampleTotals [pricedProduct (ascii ''5'') 1] [(''Total'', ascii ''n/a'')])
       = (Fin 5, NaN)"
  by (simp add: sampleTotals_def pricedProduct_def totals_defs parse_defs double_defs)

text \<open>
  Claim C10. The total is read from the first entry of the totals whose title is exactly
  \<open>Total\<close>: it is parseFloat of that entry's text with every character other than digits
  and dots removed. When no entry has that title the total is the subtotal. Entries
  with other titles never matter: dropping them all leaves the total unchanged.
\<close>

theorem C10_total_entry:
  "(totals d = Some (pre @ t # post) \<and> title t = ascii ''Total''
      \<and> (\<forall>e\<in>set pre. title e \<noteq> ascii ''Total'')
    \<longrightarrow> totalPrice d = parseFloat (filter (\<lambda>c. isDigit c \<or> c = dot) (entry_text t)))
   \<and> (totals d = Some ts \<and> (\<forall>e\<in>set ts. title e \<noteq> ascii ''Total'')
    \<longrightarrow> totalPrice d = subTotal d)
   \<and> (totals d = Some ts
    \<longrightarrow> totalPrice d
          = totalPrice (d\<lparr> totals := Some (filter (\<lambda>e. title e = ascii ''Total'') ts) \<rparr>))"
proof (intro conjI impI)
  assume a: "totals d = Some (pre @ t # post) \<and> title t = ascii ''Total''
      \<and> (\<forall>e\<in>set pre. title e \<noteq> ascii ''Total'')"
  then have "totalItem d = Some t"
    by (simp add: totalItem_def find_first)
  then show "totalPrice d = parseFloat (filter (\<lambda>c. isDigit c \<or> c = dot) (entry_text t))"
    by (simp add: totalPrice_def stripNonNumeric_def)
next
  assume "totals d = Some ts \<and> (\<forall>e\<in>set ts. title e \<noteq> ascii ''Total'')"
  then have "totalItem d = None"
    by (simp add: totalItem_def find_none)
  then show "totalPrice d = subTotal d"
    by (simp add: totalPrice_def)
next
  assume "totals d = Some ts"
  then show "totalPrice d
          = totalPrice (d\<lparr> totals := Some (filter (\<lambda>e. title e = ascii ''Total'') ts) \<rparr>)"
    by (simp add: totalPrice_def totalItem_def find_filter_same subTotal_totals split: option.splits)
qed

theorem C10_total_entry_witness:
  "totalPrice (sampleTotals [sampleProduct 1 ''12.50'' 2]
      [(''Sub-Total'', ascii ''25.00'' @ [euro]), (''Total'', ascii ''20.00'' @ [euro])]) = Fin 20
   \<and> totalPrice (sampleTotals [sampleProduct 1 ''12.50'' 2]
      [(''Total'', ascii ''20,00 '' @ [euro])]) = Fin 2000
   \<and> totalPrice (sampleTotals [sampleProduct 1 ''12.50'' 2]
      [(''Sub-Total'', ascii ''24.00'' @ [euro]), (''total'', ascii ''20.00'' @ [euro])]) = Fin 25"
proof -
  let ?sub = "\<lparr> title = ascii ''Sub-Total'', entry_text = ascii ''25.00'' @ [euro] \<rparr>"
  let ?tot = "\<lparr> title = ascii ''Total'', entry_text = ascii ''20.00'' @ [euro] \<rparr>"
  let ?d = "sampleTotals [sampleProduct 1 ''12.50'' 2]
      [(''Sub-Total'', ascii ''25.00'' @ [euro]), (''Total'', ascii ''20.00'' @ [euro])]"
  let ?ts = "[\<lparr> title = ascii ''Sub-Total'', entry_text = ascii ''24.00'' @ [euro] \<rparr>,
              \<lparr> title = ascii ''total'', entry_text = ascii ''20.00'' @ [euro] \<rparr>]"
  let ?e = "sampleTotals [sampleProduct 1 ''12.50'' 2]
      [(''Sub-Total'', ascii ''24.00'' @ [euro]), (''total'', ascii ''20.00'' @ [euro])]"
  have "totalPrice ?d = parseFloat (filter (\<lambda>c. isDigit c \<or> c = dot) (entry_text ?tot))"
    using C10_total_entry [of ?d "[?sub]" ?tot "[]"]
    by (simp add: sampleTotals_def ascii_def)
  then have a: "totalPrice ?d = Fin 20"
    by (simp add: parse_defs double_defs)
  have "totalPrice ?e = subTotal ?e"
    using C10_total_entry [of ?e _ _ _ ?ts]
    by (simp add: sampleTotals_def ascii_def)
  then have b: "totalPrice ?e = Fin 25"
    by (simp add: sampleTotals_def sampleProduct_def totals_defs parse_defs double_defs)
  let ?c = "\<lparr> title = ascii ''Total'', entry_text = ascii ''20,00 '' @ [euro] \<rparr>"
  let ?g = "sampleTotals [sampleProduct 1 ''12.50'' 2] [(''Total'', ascii ''20,00 '' @ [euro])]"
  have "totalPrice ?g = parseFloat (filter (\<lambda>c. isDigit c \<or> c = dot) (entry_text ?c))"
    using C10_total_entry [of ?g "[]" ?c "[]"]
    by (simp add: sampleTotals_def ascii_def)
  then have c: "totalPrice ?g = Fin 2000"
    by (simp add: parse_defs double_defs)
  from a b c show ?thesis by simp
qed

section \<open>Quantity changes\<close>

lemma edits_afterMutation: "edits (afterMutation r) = []"
  by (cases r) (simp_all add: afterMutation_def)

lemma removals_afterMutation: "removals (afterMutation r) = []"
  by (cases r) (simp_all add: afterMutation_def)

text \<open>
  Claim C5. Whatever the backend answers, \<open>handleIncrement\<close> sends exactly one edit
  request, for the item's cart entry with the current quantity plus one, and no removal.
  \<open>handleDecrement\<close> on a quantity above 1 sends exactly one edit request, with the
  quantity minus one, and no removal; on quantity 1 (or less) it sends no edit request
  and one removal of that cart entry. \<open>handleDecrement\<close> never sends quantity 0 to the
  edit interface, and neither does \<open>handleIncrement\<close> on an item that is in the cart
  (quantity at least 1).
\<close>

theorem C5_quantity_requests:
  "edits (handleIncrement item r) = [(item_cart_id item, item_quantity item + 1)]
   \<and> removals (handleIncrement item r) = []
   \<and> (1 < item_quantity item \<longrightarrow>
        edits (handleDecrement item r) = [(item_cart_id item, item_quantity item - 1)]
        \<and> removals (handleDecrement item r) = [])
   \<and> (item_quantity item \<le> 1 \<longrightarrow>
        edits (handleDecrement item r) = []
        \<and> removals (handleDecrement item r) = [item_cart_id item])
   \<and> 0 \<notin> snd ` set (edits (handleDecrement item r))
   \<and> (1 \<le> item_quantity item \<longrightarrow> 0 \<notin> snd ` set (edits (handleIncrement item r)))"
  by (simp add: handleIncrement_def handleDecrement_def handleRemove_def
      edits_afterMutation removals_afterMutation)

theorem C5_quantity_requests_witness:
  "edits (handleDecrement (sampleItem 3) (Resolved True)) = [(ascii ''c1'', 2)]
   \<and> removals (handleDecrement (sampleItem 1) (Resolved True)) = [ascii ''c1'']
   \<and> edits (handleDecrement (sampleItem 1) (Resolved True)) = []
   \<and> 0 \<notin> snd ` set (edits (handleIncrement (sampleItem 1) Thrown))"
  using C5_quantity_requests [of "sampleItem 3" "Resolved True"]
    C5_quantity_requests [of "sampleItem 1" "Resolved True"]
    C5_quantity_requests [of "sampleItem 1" Thrown]
  by (simp add: sampleItem_def)

section \<open>Checkout validation: properties\<close>

lemma checkContents2_prefix:
  "\<forall>c\<in>set pre. checkContent lookup ps c = Pass \<Longrightarrow>
   checkContents2 lookup ps (pre @ rest) =
     (fst (checkContents2 lookup ps rest), concat (map ids pre) @ snd (checkContents2 lookup ps rest))"
  by (induction pre) (auto split: prod.splits)

lemma checkContents2_Proceed_iff:
  "fst (checkContents2 lookup ps cs) = Proceed \<longleftrightarrow> (\<forall>c\<in>set cs. checkContent lookup ps c = Pass)"
  by (induction cs) (auto split: verdict.splits prod.splits)

lemma checkContents1_prefix:
  "\<forall>c\<in>set pre. \<not> intOrZero (currentCount c) < intOrZero (count c) \<Longrightarrow>
   checkContents1 (pre @ rest) = checkContents1 rest"
  by (induction pre) (auto simp: Let_def)

lemma checkContents1_Proceed_iff:
  "checkContents1 cs = Proceed \<longleftrightarrow> (\<forall>c\<in>set cs. intOrZero (count c) \<le> intOrZero (currentCount c))"
  by (induction cs) (auto simp: Let_def)

lemma awaitAll_Some:
  "awaitAll (map lookup is) = Some rs \<longleftrightarrow>
     (\<forall>i\<in>set is. lookup i \<noteq> Rejected) \<and> rs = map (\<lambda>i. case lookup i of Body b \<Rightarrow> b | Rejected \<Rightarrow> None) is"
proof -
  have "Rejected \<in> lookup ` set is \<longleftrightarrow> (\<exists>i\<in>set is. lookup i = Rejected)"
    by (metis image_iff)
  then show ?thesis
    by (auto simp: awaitAll_def comp_def)
qed

lemma awaitAll_None:
  "awaitAll (map lookup is) = None \<longleftrightarrow> (\<exists>i\<in>set is. lookup i = Rejected)"
proof -
  have "Rejected \<in> lookup ` set is \<longleftrightarrow> (\<exists>i\<in>set is. lookup i = Rejected)"
    by (metis image_iff)
  then show ?thesis
    by (simp add: awaitAll_def)
qed

lemma awaitAll_bodies:
  "\<forall>i\<in>set (ids c). lookup i \<noteq> Rejected \<Longrightarrow> awaitAll (map lookup (ids c)) = Some (bodies lookup c)"
  by (simp add: awaitAll_Some bodies_def)

lemma checkContent_resolved:
  "\<forall>i\<in>set (ids c). lookup i \<noteq> Rejected \<Longrightarrow>
   checkContent lookup ps c =
     (if currentCount2 (categoryProducts (bodies lookup c)) ps < intOrZero (count c)
      then Fail (intOrZero (count c)) (currentCount2 (categoryProducts (bodies lookup c)) ps)
      else Pass)"
  by (simp add: checkContent_def awaitAll_bodies Let_def)

lemma checkContent_rejected:
  "\<exists>i\<in>set (ids c). lookup i = Rejected \<Longrightarrow> checkContent lookup ps c = Abort"
proof -
  assume "\<exists>i\<in>set (ids c). lookup i = Rejected"
  then have "awaitAll (map lookup (ids c)) = None"
    by (simp only: awaitAll_None)
  then show ?thesis
    by (simp add: checkContent_def)
qed

lemma checkContent_Fail_iff:
  "checkContent lookup ps c = Fail r k \<longleftrightarrow>
     (\<forall>i\<in>set (ids c). lookup i \<noteq> Rejected) \<and> r = intOrZero (count c)
     \<and> k = currentCount2 (categoryProducts (bodies lookup c)) ps \<and> k < r"
proof (cases "\<exists>i\<in>set (ids c). lookup i = Rejected")
  case True
  then show ?thesis using checkContent_rejected [OF True, of ps] by auto
next
  case False
  then have ok: "\<forall>i\<in>set (ids c). lookup i \<noteq> Rejected" by simp
  show ?thesis using ok by (auto simp: checkContent_resolved [OF ok])
qed

lemma checkContent_Pass_iff:
  "checkContent lookup ps c = Pass \<longleftrightarrow>
     (\<forall>i\<in>set (ids c). lookup i \<noteq> Rejected)
     \<and> intOrZero (count c) \<le> currentCount2 (categoryProducts (bodies lookup c)) ps"
proof (cases "\<exists>i\<in>set (ids c). lookup i = Rejected")
  case True
  then show ?thesis using checkContent_rejected [OF True, of ps] by auto
next
  case False
  then have ok: "\<forall>i\<in>set (ids c). lookup i \<noteq> Rejected" by simp
  show ?thesis using ok by (auto simp: checkContent_resolved [OF ok])
qed


lemma foldl_count:
  "foldl (\<lambda>sum product.
            if list_ex (\<lambda>p. p = product_id product) cps
            then sum + quantity product else sum) a xs
   = a + (\<Sum>p\<leftarrow>filter (\<lambda>p. product_id p \<in> set cps) xs. quantity p)"
  by (induction xs arbitrary: a) (auto simp: list_ex_iff)

lemma currentCount2_sum:
  "currentCount2 cps ps = (\<Sum>p\<leftarrow>filter (\<lambda>p. product_id p \<in> set cps) (productsOrEmpty ps). quantity p)"
  by (cases ps) (simp_all add: currentCount2_def productsOrEmpty_def Let_def foldl_count)

lemma foldl_categoryProducts:
  "set (foldl (\<lambda>acc result. case result of Some ps \<Rightarrow> acc @ ps | None \<Rightarrow> acc) a rs)
   = set a \<union> (\<Union>r\<in>set rs. case r of Some b \<Rightarrow> set b | None \<Rightarrow> {})"
  by (induction rs arbitrary: a) (auto split: option.splits)

lemma set_categoryProducts:
  "set (categoryProducts rs) = (\<Union>r\<in>set rs. case r of Some b \<Rightarrow> set b | None \<Rightarrow> {})"
  by (simp add: categoryProducts_def foldl_categoryProducts)

lemma currentCount2_nonneg:
  "\<forall>p\<in>set (productsOrEmpty ps). 0 \<le> quantity p \<Longrightarrow> 0 \<le> currentCount2 cps ps"
  unfolding currentCount2_sum by (rule sum_list_nonneg) auto


lemma checkContents2_Unsatisfied:
  "fst (checkContents2 lookup ps cs) = Unsatisfied n r k \<Longrightarrow>
   \<exists>c\<in>set cs. name c = n \<and> checkContent lookup ps c = Fail r k"
  by (induction cs) (auto split: verdict.splits prod.splits)

lemma handleCheckout2_at:
  assumes "contents d = Some (pre @ c # post)"
    and "\<forall>g\<in>set pre. checkContent lookup (products d) g = Pass"
  shows "handleCheckout2 lookup d =
     (fst (checkContents2 lookup (products d) (c # post)),
      concat (map ids pre) @ snd (checkContents2 lookup (products d) (c # post)))"
  using assms by (simp add: handleCheckout2_def menuContents_def checkContents2_prefix)

lemma handleCheckout1_at:
  assumes "contents d = Some (pre @ c # post)"
    and "\<forall>g\<in>set pre. intOrZero (count g) \<le> intOrZero (currentCount g)"
  shows "handleCheckout1 d = checkContents1 (c # post)"
proof -
  from assms(2) have "\<forall>g\<in>set pre. \<not> intOrZero (currentCount g) < intOrZero (count g)"
    by (simp add: not_less)
  then show ?thesis
    using assms(1) by (simp add: handleCheckout1_def menuContents_def checkContents1_prefix)
qed

text \<open>
  Claim C3. The contents are checked in their order. When every content before \<open>c\<close> passes
  and \<open>c\<close> is the first whose current count is below its required count, the checkout
  ends with the toast for \<open>c\<close>, whatever contents follow: in the second version only the
  categories of the contents up to and including \<open>c\<close> have been requested, none of the
  later ones. The checkout proceeds exactly when every content passes, and a content
  passes exactly when its lookups resolve and its current count reaches its required
  count. The first version does the same with the backend's own tally.
\<close>

theorem C3_first_unsatisfied:
  "(contents d = Some (pre @ c # post)
      \<and> (\<forall>g\<in>set pre. checkContent lookup (products d) g = Pass)
      \<and> checkContent lookup (products d) c = Fail r k
    \<longrightarrow> handleCheckout2 lookup d = (Unsatisfied (name c) r k, concat (map ids pre) @ ids c))
   \<and> (fst (handleCheckout2 lookup d) = Proceed
        \<longleftrightarrow> (\<forall>g\<in>set (menuContents d). checkContent lookup (products d) g = Pass))
   \<and> (checkContent lookup ps g = Pass
        \<longleftrightarrow> (\<forall>i\<in>set (ids g). lookup i \<noteq> Rejected)
            \<and> intOrZero (count g) \<le> currentCount2 (categoryProducts (bodies lookup g)) ps)
   \<and> (checkContent lookup ps g = Fail r' k'
        \<longleftrightarrow> (\<forall>i\<in>set (ids g). lookup i \<noteq> Rejected) \<and> r' = intOrZero (count g)
            \<and> k' = currentCount2 (categoryProducts (bodies lookup g)) ps \<and> k' < r')
   \<and> (contents d = Some (pre @ c # post)
      \<and> (\<forall>g\<in>set pre. intOrZero (count g) \<le> intOrZero (currentCount g))
      \<and> intOrZero (currentCount c) < intOrZero (count c)
    \<longrightarrow> handleCheckout1 d
          = Unsatisfied (name c) (intOrZero (count c)) (intOrZero (currentCount c)))
   \<and> (handleCheckout1 d = Proceed
        \<longleftrightarrow> (\<forall>g\<in>set (menuContents d). intOrZero (count g) \<le> intOrZero (currentCount g)))"
proof (intro conjI impI)
  assume a: "contents d = Some (pre @ c # post)
      \<and> (\<forall>g\<in>set pre. checkContent lookup (products d) g = Pass)
      \<and> checkContent lookup (products d) c = Fail r k"
  then show "handleCheckout2 lookup d = (Unsatisfied (name c) r k, concat (map ids pre) @ ids c)"
    by (simp add: handleCheckout2_at [of d pre c post lookup])
next
  show "fst (handleCheckout2 lookup d) = Proceed
        \<longleftrightarrow> (\<forall>g\<in>set (menuContents d). checkContent lookup (products d) g = Pass)"
    by (simp add: handleCheckout2_def checkContents2_Proceed_iff)
next
  show "checkContent lookup ps g = Pass
        \<longleftrightarrow> (\<forall>i\<in>set (ids g). lookup i \<noteq> Rejected)
            \<and> intOrZero (count g) \<le> currentCount2 (categoryProducts (bodies lookup g)) ps"
    by (rule checkContent_Pass_iff)
next
  show "checkContent lookup ps g = Fail r' k'
        \<longleftrightarrow> (\<forall>i\<in>set (ids g). lookup i \<noteq> Rejected) \<and> r' = intOrZero (count g)
            \<and> k' = currentCount2 (categoryProducts (bodies lookup g)) ps \<and> k' < r'"
    by (rule checkContent_Fail_iff)
next
  assume a: "contents d = Some (pre @ c # post)
      \<and> (\<forall>g\<in>set pre. intOrZero (count g) \<le> intOrZero (currentCount g))
      \<and> intOrZero (currentCount c) < intOrZero (count c)"
  then show "handleCheckout1 d
          = Unsatisfied (name c) (intOrZero (count c)) (intOrZero (currentCount c))"
    by (simp add: handleCheckout1_at [of d pre c post] Let_def)
next
  show "handleCheckout1 d = Proceed
        \<longleftrightarrow> (\<forall>g\<in>set (menuContents d). intOrZero (count g) \<le> intOrZero (currentCount g))"
    by (simp add: handleCheckout1_def checkContents1_Proceed_iff)
qed

lemma sample_Salat_Fail:
  "checkContent sampleLookup (Some [sampleProduct 1 ''5'' 1]) (sampleContent ''Salat'' 2 [10]) = Fail 2 1"
  by (simp add: checkContent_def sampleLookup_def sampleContent_def sampleProduct_def
      awaitAll_def categoryProducts_def currentCount2_def intOrZero_def)

theorem C3_first_unsatisfied_witness:
  "handleCheckout2 sampleLookup
     (sampleCart [sampleProduct 1 ''5'' 1]
        [sampleContent ''Salat'' 2 [10], sampleContent ''Dessert'' 1 [20]])
   = (Unsatisfied (ascii ''Salat'') 2 1, [10])"
  using C3_first_unsatisfied [of "sampleCart [sampleProduct 1 ''5'' 1]
        [sampleContent ''Salat'' 2 [10], sampleContent ''Dessert'' 1 [20]]" "[]"
        "sampleContent ''Salat'' 2 [10]" "[sampleContent ''Dessert'' 1 [20]]" sampleLookup 2 1]
    sample_Salat_Fail
  by (simp add: sampleCart_def sampleContent_def)


lemma currentCount2_skip:
  "product_id p \<notin> set cps \<Longrightarrow>
   currentCount2 cps (Some (xs @ p # ys)) = currentCount2 cps (Some (xs @ ys))"
  by (simp add: currentCount2_sum productsOrEmpty_def)

lemma currentCount2_empty: "set cps = {} \<Longrightarrow> currentCount2 cps ps = 0"
  by (simp add: currentCount2_sum)

lemma set_bodies:
  "set (categoryProducts (bodies lookup c))
   = (\<Union>i\<in>set (ids c). case lookup i of Body (Some b) \<Rightarrow> set b | _ \<Rightarrow> {})"
  by (auto simp: set_categoryProducts bodies_def split: response.splits option.splits)

lemma checkContent_empty_membership:
  assumes "\<forall>i\<in>set (ids c). lookup i \<noteq> Rejected"
    and "set (categoryProducts (bodies lookup c)) = {}"
    and "0 < intOrZero (count c)"
  shows "checkContent lookup ps c = Fail (intOrZero (count c)) 0"
  using assms by (simp add: checkContent_resolved currentCount2_empty)

lemma handleCheckout1_products: "handleCheckout1 (d\<lparr> products := ps \<rparr>) = handleCheckout1 d"
  by (simp add: handleCheckout1_def menuContents_def)

text \<open>
  Claim C4, as amended. In the second version of the page the current count of a content
  is the sum of the quantities of exactly those cart products whose \<open>product_id\<close> is
  among the products looked up for the content's categories; a product that is not
  among them adds nothing. With no such product at all the count is 0, so a content
  with a positive required count is reported by the toast when the loop reaches it, and
  the checkout never proceeds. The first version counts no line items: its outcome does
  not depend on the products in the cart, and the count it compares and reports is the
  backend's \<open>currentCount\<close> field, 0 when absent.
\<close>

theorem C4_currentCount:
  "currentCount2 cps ps
     = (\<Sum>p\<leftarrow>filter (\<lambda>p. product_id p \<in> set cps) (productsOrEmpty ps). quantity p)
   \<and> ((\<forall>i\<in>set (ids c). lookup i \<noteq> Rejected) \<longrightarrow>
        checkContent lookup ps c
          = (if currentCount2 (categoryProducts (bodies lookup c)) ps < intOrZero (count c)
             then Fail (intOrZero (count c))
                    (currentCount2 (categoryProducts (bodies lookup c)) ps)
             else Pass))
   \<and> set (categoryProducts (bodies lookup c))
        = (\<Union>i\<in>set (ids c). case lookup i of Body (Some b) \<Rightarrow> set b | _ \<Rightarrow> {})
   \<and> (product_id p \<notin> set cps \<longrightarrow>
        currentCount2 cps (Some (xs @ p # ys)) = currentCount2 cps (Some (xs @ ys)))
   \<and> (set cps = {} \<longrightarrow> currentCount2 cps ps = 0)
   \<and> (contents d = Some (pre @ c # post)
        \<and> (\<forall>g\<in>set pre. checkContent lookup (products d) g = Pass)
        \<and> (\<forall>i\<in>set (ids c). lookup i \<noteq> Rejected)
        \<and> set (categoryProducts (bodies lookup c)) = {}
        \<and> 0 < intOrZero (count c)
      \<longrightarrow> handleCheckout2 lookup d
            = (Unsatisfied (name c) (intOrZero (count c)) 0, concat (map ids pre) @ ids c))
   \<and> (c \<in> set (menuContents d)
        \<and> (\<forall>i\<in>set (ids c). lookup i \<noteq> Rejected)
        \<and> set (categoryProducts (bodies lookup c)) = {}
        \<and> 0 < intOrZero (count c)
      \<longrightarrow> fst (handleCheckout2 lookup d) \<noteq> Proceed)
   \<and> handleCheckout1 (d\<lparr> products := ps' \<rparr>) = handleCheckout1 d
   \<and> (contents d = Some (pre @ c # post)
        \<and> (\<forall>g\<in>set pre. intOrZero (count g) \<le> intOrZero (currentCount g))
        \<and> intOrZero (currentCount c) < intOrZero (count c)
      \<longrightarrow> handleCheckout1 d
            = Unsatisfied (name c) (intOrZero (count c)) (intOrZero (currentCount c)))"
proof (intro conjI impI)
  show "currentCount2 cps ps
     = (\<Sum>p\<leftarrow>filter (\<lambda>p. product_id p \<in> set cps) (productsOrEmpty ps). quantity p)"
    by (rule currentCount2_sum)
next
  assume "\<forall>i\<in>set (ids c). lookup i \<noteq> Rejected"
  then show "checkContent lookup ps c
          = (if currentCount2 (categoryProducts (bodies lookup c)) ps < intOrZero (count c)
             then Fail (intOrZero (count c))
                    (currentCount2 (categoryProducts (bodies lookup c)) ps)
             else Pass)"
    by (rule checkContent_resolved)
next
  show "set (categoryProducts (bodies lookup c))
        = (\<Union>i\<in>set (ids c). case lookup i of Body (Some b) \<Rightarrow> set b | _ \<Rightarrow> {})"
    by (rule set_bodies)
next
  assume "product_id p \<notin> set cps"
  then show "currentCount2 cps (Some (xs @ p # ys)) = currentCount2 cps (Some (xs @ ys))"
    by (rule currentCount2_skip)
next
  assume "set cps = {}"
  then show "currentCount2 cps ps = 0"
    by (rule currentCount2_empty)
next
  assume a: "contents d = Some (pre @ c # post)
        \<and> (\<forall>g\<in>set pre. checkContent lookup (products d) g = Pass)
        \<and> (\<forall>i\<in>set (ids c). lookup i \<noteq> Rejected)
        \<and> set (categoryProducts (bodies lookup c)) = {}
        \<and> 0 < intOrZero (count c)"
  then have "checkContent lookup (products d) c = Fail (intOrZero (count c)) 0"
    by (simp add: checkContent_empty_membership)
  with a show "handleCheckout2 lookup d
            = (Unsatisfied (name c) (intOrZero (count c)) 0, concat (map ids pre) @ ids c)"
    by (simp add: handleCheckout2_at [of d pre c post lookup])
next
  assume a: "c \<in> set (menuContents d)
        \<and> (\<forall>i\<in>set (ids c). lookup i \<noteq> Rejected)
        \<and> set (categoryProducts (bodies lookup c)) = {}
        \<and> 0 < intOrZero (count c)"
  then have "checkContent lookup (products d) c = Fail (intOrZero (count c)) 0"
    by (simp add: checkContent_empty_membership)
  then have "checkContent lookup (products d) c \<noteq> Pass"
    by simp
  with a show "fst (handleCheckout2 lookup d) \<noteq> Proceed"
    unfolding handleCheckout2_def checkContents2_Proceed_iff by blast
next
  show "handleCheckout1 (d\<lparr> products := ps' \<rparr>) = handleCheckout1 d"
    by (rule handleCheckout1_products)
next
  assume "contents d = Some (pre @ c # post)
        \<and> (\<forall>g\<in>set pre. intOrZero (count g) \<le> intOrZero (currentCount g))
        \<and> intOrZero (currentCount c) < intOrZero (count c)"
  then show "handleCheckout1 d
            = Unsatisfied (name c) (intOrZero (count c)) (intOrZero (currentCount c))"
    by (simp add: handleCheckout1_at [of d pre c post] Let_def)
qed

theorem C4_currentCount_witness:
  "currentCount2 [1, 2] (Some [sampleProduct 1 ''5'' 2, sampleProduct 9 ''5'' 4, sampleProduct 2 ''5'' 1]) = 3
   \<and> currentCount2 [1, 2] (Some [sampleProduct 1 ''5'' 2, sampleProduct 2 ''5'' 1]) = 3
   \<and> handleCheckout2 sampleLookup
        (sampleCart [sampleProduct 1 ''5'' 2]
           [sampleContent ''Salat'' 2 [10], sampleContent ''Brot'' 1 [30]])
      = (Unsatisfied (ascii ''Brot'') 1 0, [10, 30])"
proof -
  let ?d = "sampleCart [sampleProduct 1 ''5'' 2]
           [sampleContent ''Salat'' 2 [10], sampleContent ''Brot'' 1 [30]]"
  have pass: "checkContent sampleLookup (products ?d) (sampleContent ''Salat'' 2 [10]) = Pass"
    by (simp add: checkContent_def sampleLookup_def sampleContent_def sampleProduct_def
        sampleCart_def awaitAll_def categoryProducts_def currentCount2_def intOrZero_def)
  have empty: "set (categoryProducts (bodies sampleLookup (sampleContent ''Brot'' 1 [30]))) = {}"
    by (simp add: categoryProducts_def bodies_def sampleLookup_def sampleContent_def)
  have a: "currentCount2 [1, 2] (Some ([sampleProduct 1 ''5'' 2] @ sampleProduct 9 ''5'' 4 # [sampleProduct 2 ''5'' 1]))
     = currentCount2 [1, 2] (Some ([sampleProduct 1 ''5'' 2] @ [sampleProduct 2 ''5'' 1]))"
    using C4_currentCount [of "[1, 2]" _ _ _ "sampleProduct 9 ''5'' 4"
        "[sampleProduct 1 ''5'' 2]" "[sampleProduct 2 ''5'' 1]"]
    by (simp add: sampleProduct_def productsOrEmpty_def)
  have b: "currentCount2 [1, 2] (Some [sampleProduct 1 ''5'' 2, sampleProduct 2 ''5'' 1]) = 3"
    using C4_currentCount [of "[1, 2]" "Some [sampleProduct 1 ''5'' 2, sampleProduct 2 ''5'' 1]"]
    by (simp add: sampleProduct_def productsOrEmpty_def)
  have c: "handleCheckout2 sampleLookup ?d = (Unsatisfied (ascii ''Brot'') 1 0, [10, 30])"
    using C4_currentCount [of _ _ "sampleContent ''Brot'' 1 [30]" sampleLookup _ _ _ ?d
        "[sampleContent ''Salat'' 2 [10]]" "[]"] pass empty
    by (simp add: sampleCart_def sampleContent_def sampleLookup_def intOrZero_def)
  from a b c show ?thesis by simp
qed


text \<open>
  Claim C4 as stated fails on the first version of the page: with five items of product
  1 in the cart and a content that requires 2 items of a category holding the products
  1 and 2, the items of the membership set sum to 5, yet the first version, given no
  tally by the backend, reports 0 selected; the second version proceeds.
\<close>

theorem C4_counterexample:
  "handleCheckout1 (sampleCart [sampleProduct 1 ''5'' 5] [untalliedContent ''Salat'' 2 [10]])
     = Unsatisfied (ascii ''Salat'') 2 0
   \<and> set (categoryProducts (bodies sampleLookup (untalliedContent ''Salat'' 2 [10]))) = {1, 2}
   \<and> (\<Sum>p\<leftarrow>filter (\<lambda>p. product_id p \<in> {1, 2}) [sampleProduct 1 ''5'' 5]. quantity p) = 5
   \<and> handleCheckout2 sampleLookup
        (sampleCart [sampleProduct 1 ''5'' 5] [untalliedContent ''Salat'' 2 [10]])
      = (Proceed, [10])"
  by (simp add: handleCheckout1_def handleCheckout2_def menuContents_def sampleCart_def
      untalliedContent_def sampleProduct_def sampleLookup_def intOrZero_def checkContent_def
      awaitAll_def categoryProducts_def bodies_def currentCount2_def)









lemma checkContents1_Unsatisfied:
  "checkContents1 cs = Unsatisfied n r k \<Longrightarrow>
   \<exists>c\<in>set cs. r = intOrZero (count c) \<and> k = intOrZero (currentCount c) \<and> k < r"
  by (induction cs) (auto simp: Let_def split: if_splits)

text \<open>
  Claim C7. With cart quantities that are not negative (the data model has them at least
  1), a content whose required count is 0 is never the one the toast names: its check
  never fails, the loop goes on to the next content once its lookups resolve, and every
  toast names a positive required count. In the first version the same holds when the
  backend's tally is not negative.
\<close>

theorem C7_zero_required_never_reported:
  "(intOrZero (count c) = 0 \<and> (\<forall>p\<in>set (productsOrEmpty ps). 0 \<le> quantity p)
      \<longrightarrow> checkContent lookup ps c \<noteq> Fail r k)
   \<and> (intOrZero (count c) = 0 \<and> (\<forall>p\<in>set (productsOrEmpty ps). 0 \<le> quantity p)
        \<and> (\<forall>i\<in>set (ids c). lookup i \<noteq> Rejected)
      \<longrightarrow> checkContents2 lookup ps (c # cs)
            = (fst (checkContents2 lookup ps cs), ids c @ snd (checkContents2 lookup ps cs)))
   \<and> ((\<forall>p\<in>set (productsOrEmpty (products d)). 0 \<le> quantity p)
        \<and> fst (handleCheckout2 lookup d) = Unsatisfied n r k
      \<longrightarrow> 0 < r)
   \<and> (intOrZero (count c) = 0 \<and> 0 \<le> intOrZero (currentCount c)
      \<longrightarrow> checkContents1 (c # cs) = checkContents1 cs)
   \<and> ((\<forall>g\<in>set (menuContents d). 0 \<le> intOrZero (currentCount g))
        \<and> handleCheckout1 d = Unsatisfied n r k
      \<longrightarrow> 0 < r)"
proof (intro conjI impI)
  assume a: "intOrZero (count c) = 0 \<and> (\<forall>p\<in>set (productsOrEmpty ps). 0 \<le> quantity p)"
  then have "0 \<le> currentCount2 (categoryProducts (bodies lookup c)) ps"
    by (simp add: currentCount2_nonneg)
  with a show "checkContent lookup ps c \<noteq> Fail r k"
    by (simp add: checkContent_Fail_iff)
next
  assume a: "intOrZero (count c) = 0 \<and> (\<forall>p\<in>set (productsOrEmpty ps). 0 \<le> quantity p)
        \<and> (\<forall>i\<in>set (ids c). lookup i \<noteq> Rejected)"
  then have "0 \<le> currentCount2 (categoryProducts (bodies lookup c)) ps"
    by (simp add: currentCount2_nonneg)
  with a have "checkContent lookup ps c = Pass"
    by (simp add: checkContent_Pass_iff)
  then show "checkContents2 lookup ps (c # cs)
            = (fst (checkContents2 lookup ps cs), ids c @ snd (checkContents2 lookup ps cs))"
    by (simp split: prod.splits)
next
  assume a: "(\<forall>p\<in>set (productsOrEmpty (products d)). 0 \<le> quantity p)
        \<and> fst (handleCheckout2 lookup d) = Unsatisfied n r k"
  then have "\<exists>g\<in>set (menuContents d). name g = n \<and> checkContent lookup (products d) g = Fail r k"
    unfolding handleCheckout2_def by (simp add: checkContents2_Unsatisfied)
  then obtain g where "checkContent lookup (products d) g = Fail r k"
    by blast
  then have "k = currentCount2 (categoryProducts (bodies lookup g)) (products d)" and "k < r"
    by (simp_all add: checkContent_Fail_iff)
  moreover from a have "0 \<le> currentCount2 (categoryProducts (bodies lookup g)) (products d)"
    by (simp add: currentCount2_nonneg)
  ultimately show "0 < r"
    by simp
next
  assume "intOrZero (count c) = 0 \<and> 0 \<le> intOrZero (currentCount c)"
  then show "checkContents1 (c # cs) = checkContents1 cs"
    by (simp add: Let_def)
next
  assume a: "(\<forall>g\<in>set (menuContents d). 0 \<le> intOrZero (currentCount g))
        \<and> handleCheckout1 d = Unsatisfied n r k"
  then have "\<exists>g\<in>set (menuContents d). r = intOrZero (count g) \<and> k = intOrZero (currentCount g) \<and> k < r"
    unfolding handleCheckout1_def by (simp add: checkContents1_Unsatisfied)
  with a show "0 < r"
    by force
qed

theorem C7_zero_required_never_reported_witness:
  "checkContents2 sampleLookup (Some [sampleProduct 1 ''5'' 2])
     [sampleContent ''Suppe'' 0 [30], sampleContent ''Dessert'' 1 [20]]
   = (Unsatisfied (ascii ''Dessert'') 1 0, [30, 20])
   \<and> checkContent sampleLookup (Some [sampleProduct 1 ''5'' 2]) (sampleContent ''Suppe'' 0 [10]) = Pass"
proof -
  let ?ps = "Some [sampleProduct 1 ''5'' 2]"
  have q: "\<forall>p\<in>set (productsOrEmpty ?ps). 0 \<le> quantity p"
    by (simp add: productsOrEmpty_def sampleProduct_def)
  have z: "intOrZero (count (sampleContent ''Suppe'' 0 [30])) = 0"
      "intOrZero (count (sampleContent ''Suppe'' 0 [10])) = 0"
    by (simp_all add: sampleContent_def intOrZero_def)
  have ok: "\<forall>i\<in>set (ids (sampleContent ''Suppe'' 0 [30])). sampleLookup i \<noteq> Rejected"
    by (simp add: sampleContent_def sampleLookup_def)
  have rest: "checkContents2 sampleLookup ?ps [sampleContent ''Dessert'' 1 [20]]
      = (Unsatisfied (ascii ''Dessert'') 1 0, [20])"
    by (simp add: checkContent_def sampleLookup_def sampleContent_def sampleProduct_def
        awaitAll_def categoryProducts_def currentCount2_def intOrZero_def)
  have a: "checkContents2 sampleLookup ?ps
     [sampleContent ''Suppe'' 0 [30], sampleContent ''Dessert'' 1 [20]]
   = (Unsatisfied (ascii ''Dessert'') 1 0, [30, 20])"
    using C7_zero_required_never_reported [of "sampleContent ''Suppe'' 0 [30]" ?ps sampleLookup
        _ _ "[sampleContent ''Dessert'' 1 [20]]"] q z ok rest
    by (simp add: sampleContent_def)
  have "checkContent sampleLookup ?ps (sampleContent ''Suppe'' 0 [10]) \<noteq> Fail 0 2"
    using C7_zero_required_never_reported [of "sampleContent ''Suppe'' 0 [10]" ?ps sampleLookup 0 2] q z
    by simp
  then have b: "checkContent sampleLookup ?ps (sampleContent ''Suppe'' 0 [10]) = Pass"
    by (simp add: checkContent_def sampleLookup_def sampleContent_def sampleProduct_def
        awaitAll_def categoryProducts_def currentCount2_def intOrZero_def)
  from a b show ?thesis by simp
qed

section \<open>The checkout button: properties\<close>

lemma oneRun_initial: "oneRun initialPage"
  by (simp add: oneRun_def initialPage_def)

lemma oneRun_click: "oneRun s \<Longrightarrow> click d s = Some s' \<Longrightarrow> oneRun s'"
  by (auto simp: oneRun_def click_def split: if_splits)

lemma oneRun_resume: "oneRun s \<Longrightarrow> resume i lookup s = Some s' \<Longrightarrow> oneRun s'"
  by (auto simp: oneRun_def resume_def without_def
      split: if_splits prod.splits list.splits verdict.splits)

lemma oneRun_step: "oneRun s \<Longrightarrow> step s a = Some s' \<Longrightarrow> oneRun s'"
  by (cases a) (auto intro: oneRun_click oneRun_resume)

lemma oneRun_run: "oneRun s \<Longrightarrow> run s as = Some s' \<Longrightarrow> oneRun s'"
proof (induction as arbitrary: s)
  case Nil
  then show ?case by simp
next
  case (Cons a as)
  from Cons.prems(2) obtain t where t: "step s a = Some t" and r: "run t as = Some s'"
    by (auto split: option.splits)
  from Cons.prems(1) t have "oneRun t"
    by (rule oneRun_step)
  then show ?case
    using r by (rule Cons.IH)
qed

text \<open>
  Claim C9. In every state the page reaches from its initial state, at most one run of
  \<open>handleCheckout\<close> has started and not returned, and while there is one the button is
  disabled: a click cannot happen, so no second run starts.
\<close>

theorem C9_one_checkout_in_flight:
  "run initialPage as = Some s \<Longrightarrow>
   length (running s) \<le> 1
   \<and> (running s \<noteq> [] \<longrightarrow> isCheckingOut s \<and> step s (Click d) = None)"
proof -
  assume "run initialPage as = Some s"
  with oneRun_initial have "oneRun s"
    by (rule oneRun_run)
  then show ?thesis
    by (simp add: oneRun_def click_def)
qed

theorem C9_one_checkout_in_flight_witness:
  "run initialPage [Click (sampleCart [sampleProduct 1 ''5'' 2] [sampleContent ''Salat'' 2 [10]])]
     = Some clickedPage
   \<and> running clickedPage \<noteq> []
   \<and> step clickedPage (Click (sampleCart [] [])) = None
   \<and> run initialPage
        [Click (sampleCart [sampleProduct 1 ''5'' 2] [sampleContent ''Salat'' 2 [10]]),
         Click (sampleCart [sampleProduct 1 ''5'' 2] [sampleContent ''Salat'' 2 [10]])]
      = None"
proof -
  let ?d = "sampleCart [sampleProduct 1 ''5'' 2] [sampleContent ''Salat'' 2 [10]]"
  have r: "run initialPage [Click ?d] = Some clickedPage"
    by (simp add: click_def initialPage_def clickedPage_def sampleCart_def menuContents_def)
  have n: "running clickedPage \<noteq> []"
    by (simp add: clickedPage_def)
  from C9_one_checkout_in_flight [OF r] n
  have c: "step clickedPage (Click d) = None" for d
    by simp
  have s1: "step initialPage (Click ?d) = Some clickedPage"
    using r by (simp split: option.splits)
  have "run initialPage [Click ?d, Click ?d] = None"
    by (simp add: s1 c del: step.simps)
  with r n c show ?thesis
    by simp
qed

end
